theory Spec2Isabelle
  imports Main
begin

section \<open>Strings and characters\<close>

text \<open>
  A JavaScript string is modelled as a \<^typ>\<open>string\<close>: the list of its code units, over the
  256 code units that \<^typ>\<open>char\<close> offers (the Latin-1 range). The parser, the serializer and
  the un-quoting pass single out four characters only, all of them ASCII; every other
  character is copied as it is.
\<close>

abbreviation DQ :: char where "DQ \<equiv> CHR 0x22"
abbreviation COMMA :: char where "COMMA \<equiv> CHR 0x2C"
abbreviation CR :: char where "CR \<equiv> CHR 0x0D"
abbreviation LF :: char where "LF \<equiv> CHR 0x0A"

text \<open>\<^verbatim>\<open>String.prototype.toLowerCase\<close> on the code units below 256: the letters A to Z and
  the accented capitals 0xC0 to 0xDE (the multiplication sign 0xD7 apart) move up by 32.\<close>

definition toLowerCase_char :: "char \<Rightarrow> char" where
  "toLowerCase_char c =
     (let n = (of_char c :: nat)
      in if (65 \<le> n \<and> n \<le> 90) \<or> (192 \<le> n \<and> n \<le> 222 \<and> n \<noteq> 215)
         then char_of (n + 32) else c)"

definition toLowerCase :: "string \<Rightarrow> string" where
  "toLowerCase s = map toLowerCase_char s"

text \<open>\<^verbatim>\<open>String.prototype.trim\<close> removes white space and line terminators at both ends; below
  256 these are TAB, LF, VT, FF, CR, SPACE and the no-break space 0xA0.\<close>

definition isWhiteSpace :: "char \<Rightarrow> bool" where
  "isWhiteSpace c = ((of_char c :: nat) \<in> {9, 10, 11, 12, 13, 32, 160})"

definition trim :: "string \<Rightarrow> string" where
  "trim s = rev (dropWhile isWhiteSpace (rev (dropWhile isWhiteSpace s)))"

text \<open>\<^verbatim>\<open>Array.prototype.join\<close> on an array of strings.\<close>

fun join :: "string \<Rightarrow> string list \<Rightarrow> string" where
  "join sep [] = []"
| "join sep [x] = x"
| "join sep (x # y # ys) = x @ sep @ join sep (y # ys)"

section \<open>The CSV parser (\<^verbatim>\<open>parseCSV\<close> of the import dialog)\<close>

text \<open>\<^verbatim>\<open>nextChar === x\<close>, where \<^verbatim>\<open>nextChar = text[i + 1]\<close> is \<^verbatim>\<open>undefined\<close> at the end of the
  text.\<close>

fun nextChar_is :: "string \<Rightarrow> char \<Rightarrow> bool" where
  "nextChar_is [] x = False"
| "nextChar_is (n # rest) x = (n = x)"

text \<open>\<^verbatim>\<open>if (currentValue || row.length > 0) { row.push(currentValue); result.push(row); }\<close>\<close>

definition push_row :: "string list list \<Rightarrow> string list \<Rightarrow> string \<Rightarrow> string list list" where
  "push_row result row currentValue =
     (if currentValue \<noteq> [] \<or> length row > 0 then result @ [row @ [currentValue]] else result)"

text \<open>
  The \<^verbatim>\<open>while (i < text.length)\<close> loop. The first argument is the text from index \<open>i\<close> on;
  the others are the loop's variables \<^verbatim>\<open>result\<close>, \<^verbatim>\<open>row\<close>, \<^verbatim>\<open>inQuotes\<close> and
  \<^verbatim>\<open>currentValue\<close>. The branches are in the order of the source: line terminators, then
  quotes, then commas, then ordinary characters. In the line-terminator branch the skip of
  the LF of a CR-LF pair comes after the \<^verbatim>\<open>if (inQuotes)\<close>, so it is taken on both sides.
  The empty text runs the code after the loop.
\<close>

function parse_loop ::
  "string \<Rightarrow> string list list \<Rightarrow> string list \<Rightarrow> bool \<Rightarrow> string \<Rightarrow> string list list" where
  "parse_loop [] result row inQuotes currentValue = push_row result row currentValue"
| "parse_loop (c # rest) result row inQuotes currentValue =
     (if c = CR \<or> c = LF then
        (if inQuotes then
           (if c = CR \<and> nextChar_is rest LF
            then parse_loop (tl rest) result row inQuotes (currentValue @ [c])
            else parse_loop rest result row inQuotes (currentValue @ [c]))
         else
           (if c = CR \<and> nextChar_is rest LF
            then parse_loop (tl rest) (push_row result row currentValue) [] inQuotes []
            else parse_loop rest (push_row result row currentValue) [] inQuotes []))
      else if c = DQ then
        (if inQuotes \<and> nextChar_is rest DQ
         then parse_loop (tl rest) result row inQuotes (currentValue @ [DQ])
         else parse_loop rest result row (\<not> inQuotes) currentValue)
      else if c = COMMA \<and> \<not> inQuotes then
        parse_loop rest result (row @ [currentValue]) inQuotes []
      else
        parse_loop rest result row inQuotes (currentValue @ [c]))"
  by pat_completeness auto
termination
  by (relation "measure (\<lambda>(text, result, row, inQuotes, currentValue). length text)") auto

definition parseCSV :: "string \<Rightarrow> string list list" where
  "parseCSV text = parse_loop text [] [] False []"

subsection \<open>The scan as the specification words it\<close>

text \<open>The parser as the specification words it, for comparison with \<^const>\<open>parse_loop\<close>:
  a quote toggles the quoted state unless the state is quoted and the next character is a
  quote; a comma outside quotes ends the field; CR or LF outside quotes ends the row, a
  CR-LF pair once; inside quotes CR and LF are data; anything else is data.\<close>

function Parse_spec_loop ::
  "string \<Rightarrow> string list list \<Rightarrow> string list \<Rightarrow> bool \<Rightarrow> string \<Rightarrow> string list list" where
  "Parse_spec_loop [] result row quoted field = push_row result row field"
| "Parse_spec_loop (c # rest) result row quoted field =
     (if c = DQ then
        (if quoted \<and> nextChar_is rest DQ
         then Parse_spec_loop (tl rest) result row quoted (field @ [DQ])
         else Parse_spec_loop rest result row (\<not> quoted) field)
      else if c = COMMA \<and> \<not> quoted then
        Parse_spec_loop rest result (row @ [field]) quoted []
      else if (c = CR \<or> c = LF) \<and> \<not> quoted then
        (if c = CR \<and> nextChar_is rest LF
         then Parse_spec_loop (tl rest) (push_row result row field) [] quoted []
         else Parse_spec_loop rest (push_row result row field) [] quoted [])
      else
        Parse_spec_loop rest result row quoted (field @ [c]))"
  by pat_completeness auto
termination
  by (relation "measure (\<lambda>(text, result, row, quoted, field). length text)") auto

definition Parse_spec :: "string \<Rightarrow> string list list" where
  "Parse_spec text = Parse_spec_loop text [] [] False []"

section \<open>The import handler (\<^verbatim>\<open>handleFileChange\<close>)\<close>

text \<open>The object \<^verbatim>\<open>song: any = {}\<close> that a data row becomes: its own string-valued properties.\<close>

type_synonym js_object = "string \<rightharpoonup> string"

text \<open>\<^verbatim>\<open>song[key] = value\<close> on an object created by \<^verbatim>\<open>{}\<close>: an own property is written,
  except under the key \<^verbatim>\<open>__proto__\<close>, whose inherited setter ignores a string.\<close>

definition set_prop :: "js_object \<Rightarrow> string \<Rightarrow> string \<Rightarrow> js_object" where
  "set_prop song key v = (if key = ''__proto__'' then song else song(key \<mapsto> v))"

text \<open>\<^verbatim>\<open>values[index] || ''\<close>: an index beyond the row reads \<^verbatim>\<open>undefined\<close>, which the
  \<^verbatim>\<open>||\<close> turns into the empty string.\<close>

definition value_at :: "string list \<Rightarrow> nat \<Rightarrow> string" where
  "value_at values index = (if index < length values then values ! index else [])"

text \<open>\<^verbatim>\<open>value.replace(/^"|"$/g, '')\<close>: the pattern matches a quote at index 0 and, in what
  follows the last match, a quote at the last index.\<close>

definition strip_quotes :: "string \<Rightarrow> string" where
  "strip_quotes s =
     (let s' = (case s of [] \<Rightarrow> [] | c # cs \<Rightarrow> if c = DQ then cs else s)
      in if s' \<noteq> [] \<and> last s' = DQ then butlast s' else s')"

text \<open>\<^verbatim>\<open>.replace(/""/g, '"')\<close>: matches are taken from left to right and do not overlap.\<close>

fun undouble :: "string \<Rightarrow> string" where
  "undouble (c # d # cs) = (if c = DQ \<and> d = DQ then DQ # undouble cs else c # undouble (d # cs))"
| "undouble cs = cs"

definition unquote :: "string \<Rightarrow> string" where
  "unquote v = undouble (strip_quotes v)"

text \<open>The \<^verbatim>\<open>headers.forEach((header, index) => ...)\<close> that fills the object.\<close>

definition build_song :: "string list \<Rightarrow> string list \<Rightarrow> js_object" where
  "build_song headers values =
     fold (\<lambda>(index, header) song. set_prop song (trim header) (unquote (value_at values index)))
       (enumerate 0 headers) Map.empty"

text \<open>The errors thrown inside the \<^verbatim>\<open>try\<close> block; those for a row carry the line number
  that the message shows, and the second one the category that was read.\<close>

datatype import_error =
    TooFewRows
  | MissingColumns
  | MissingTitleOrMnemonic nat
  | InvalidCategory nat "string option"

fun is_FormatError :: "import_error \<Rightarrow> bool" where
  "is_FormatError TooFewRows = True"
| "is_FormatError MissingColumns = True"
| "is_FormatError _ = False"

fun error_line :: "import_error \<Rightarrow> nat option" where
  "error_line (MissingTitleOrMnemonic n) = Some n"
| "error_line (InvalidCategory n c) = Some n"
| "error_line _ = None"

text \<open>\<^verbatim>\<open>!song.title\<close>: a property is falsy when it is absent or the empty string.\<close>

fun falsy :: "string option \<Rightarrow> bool" where
  "falsy None = True"
| "falsy (Some v) = (v = [])"

definition valid_categories :: "string list" where
  "valid_categories = [''angola'', ''saoBentoPequeno'', ''saoBentoGrande'']"

text \<open>\<^verbatim>\<open>[...].includes(song.category)\<close>: an absent property is not in the array.\<close>

fun includes_category :: "string option \<Rightarrow> bool" where
  "includes_category None = False"
| "includes_category (Some c) = (c \<in> set valid_categories)"

text \<open>The callback of \<^verbatim>\<open>rows.slice(1).map((values, rowIndex) => ...)\<close>.\<close>

definition map_row :: "string list \<Rightarrow> string list \<Rightarrow> nat \<Rightarrow> import_error + js_object" where
  "map_row headers values rowIndex =
     (let song = build_song headers values
      in if falsy (song ''title'') \<and> falsy (song ''mnemonic'')
         then Inl (MissingTitleOrMnemonic (rowIndex + 2))
         else if \<not> includes_category (song ''category'')
         then Inl (InvalidCategory (rowIndex + 2) (song ''category''))
         else Inr song)"

text \<open>The \<^verbatim>\<open>map\<close> itself: rows are taken in order and the first throw ends it.\<close>

fun map_rows :: "string list \<Rightarrow> string list list \<Rightarrow> nat \<Rightarrow> import_error + js_object list" where
  "map_rows headers [] rowIndex = Inr []"
| "map_rows headers (values # rest) rowIndex =
     (case map_row headers values rowIndex of
        Inl e \<Rightarrow> Inl e
      | Inr song \<Rightarrow>
          (case map_rows headers rest (Suc rowIndex) of
             Inl e \<Rightarrow> Inl e
           | Inr songs \<Rightarrow> Inr (song # songs)))"

text \<open>\<^verbatim>\<open>rows[0].map(h => h.toLowerCase().trim())\<close>\<close>

definition header_cells :: "string list list \<Rightarrow> string list" where
  "header_cells rows = map (\<lambda>h. trim (toLowerCase h)) (hd rows)"

text \<open>The body of the \<^verbatim>\<open>try\<close> block up to the value \<^verbatim>\<open>songs\<close>, on the text of the file.\<close>

definition read_songs :: "string \<Rightarrow> import_error + js_object list" where
  "read_songs text =
     (let rows = parseCSV text
      in if length rows < 2 then Inl TooFewRows
         else let headers = header_cells rows
              in if ''title'' \<notin> set headers \<or> ''category'' \<notin> set headers
                 then Inl MissingColumns
                 else map_rows headers (tl rows) 0)"

text \<open>What the handler does to the outside: the calls of \<^verbatim>\<open>onImport\<close> with their argument,
  whether \<^verbatim>\<open>onClose\<close> was called, and the error given to \<^verbatim>\<open>setError\<close>.\<close>

record effects =
  onImport_calls :: "js_object list list"
  onClose_called :: bool
  setError_arg :: "import_error option"

definition handleFileChange :: "string \<Rightarrow> effects" where
  "handleFileChange text =
     (case read_songs text of
        Inl e \<Rightarrow> \<lparr>onImport_calls = [], onClose_called = False, setError_arg = Some e\<rparr>
      | Inr songs \<Rightarrow> \<lparr>onImport_calls = [songs], onClose_called = True, setError_arg = None\<rparr>)"

subsection \<open>The fields of a data row\<close>

text \<open>The index of the column that names a property of the record: the last header cell
  that is the name after trimming, since in \<^const>\<open>build_song\<close> a later cell overwrites an
  earlier one.\<close>

definition column_of :: "string list \<Rightarrow> string \<Rightarrow> nat option" where
  "column_of headers name =
     map_option fst
       (find (\<lambda>(index, header). trim header = name) (rev (enumerate 0 headers)))"

text \<open>The field of a data row under that column, as the parser gave it: absent when no
  column has the name, empty when the row ends before the column.\<close>

definition row_field :: "string list \<Rightarrow> string list \<Rightarrow> string \<Rightarrow> string option" where
  "row_field headers values name = map_option (value_at values) (column_of headers name)"

text \<open>The validation rule as the specification words it, read on the fields of the row:
  a row is invalid if both its title and its mnemonic are empty, or if its category is not
  one of the three values.\<close>

definition Row_invalid_spec :: "string list \<Rightarrow> string list \<Rightarrow> bool" where
  "Row_invalid_spec headers values =
     ((falsy (row_field headers values ''title'') \<and> falsy (row_field headers values ''mnemonic''))
      \<or> \<not> includes_category (row_field headers values ''category''))"

section \<open>The CSV export (\<^verbatim>\<open>handleExport\<close> of the home page)\<close>

text \<open>The fields of a stored song that the export reads. The category is the text of the
  \<^verbatim>\<open>category\<close> column; the three optional fields may be absent.\<close>

record song =
  title :: string
  category :: string
  mnemonic :: "string option"
  lyrics :: "string option"
  mediaLink :: "string option"

text \<open>\<^verbatim>\<open>.replace(/"/g, '""')\<close>\<close>

fun escape_quotes :: "string \<Rightarrow> string" where
  "escape_quotes [] = []"
| "escape_quotes (c # cs) = (if c = DQ then DQ # DQ # escape_quotes cs else c # escape_quotes cs)"

text \<open>The template \<^verbatim>\<open>`"${v.replace(/"/g, '""')}"`\<close>\<close>

definition quoted :: "string \<Rightarrow> string" where
  "quoted v = DQ # escape_quotes v @ [DQ]"

text \<open>\<^verbatim>\<open>(song.mnemonic || '')\<close>\<close>

fun or_empty :: "string option \<Rightarrow> string" where
  "or_empty None = []"
| "or_empty (Some v) = v"

definition export_header :: string where
  "export_header = join '','' [''title'', ''category'', ''mnemonic'', ''lyrics'', ''mediaLink'']"

definition export_row :: "song \<Rightarrow> string" where
  "export_row s =
     join '',''
       [quoted (title s),
        category s,
        quoted (or_empty (mnemonic s)),
        quoted (or_empty (lyrics s)),
        quoted (or_empty (mediaLink s))]"

text \<open>The value \<^verbatim>\<open>csvContent\<close>, which becomes the content of the downloaded file.\<close>

definition handleExport :: "song list \<Rightarrow> string" where
  "handleExport songs = join [LF] (export_header # map export_row songs)"

subsection \<open>The serializer as the specification words it\<close>

text \<open>The serializer as the specification words it, for comparison with
  \<^const>\<open>handleExport\<close>: the literal header, then one row per song in which every field
  value is wrapped in double quotes with interior quotes doubled, rows joined by LF.\<close>

definition Serialize_spec_row :: "song \<Rightarrow> string" where
  "Serialize_spec_row s =
     join '',''
       (map quoted
         [title s, category s, or_empty (mnemonic s), or_empty (lyrics s),
          or_empty (mediaLink s)])"

definition Serialize_spec :: "song list \<Rightarrow> string" where
  "Serialize_spec songs =
     join [LF] (''title,category,mnemonic,lyrics,mediaLink'' # map Serialize_spec_row songs)"

section \<open>The storage schema (migration \<^verbatim>\<open>create_songs_and_settings_tables\<close>)\<close>

subsection \<open>Check constraints\<close>

text \<open>\<^verbatim>\<open>CHECK (category IN ('angola', 'saoBentoPequeno', 'saoBentoGrande'))\<close> on the
  \<^verbatim>\<open>NOT NULL\<close> column \<^verbatim>\<open>songs.category\<close>.\<close>

definition songs_category_check :: "string \<Rightarrow> bool" where
  "songs_category_check c = (c \<in> set [''angola'', ''saoBentoPequeno'', ''saoBentoGrande''])"

text \<open>\<^verbatim>\<open>CHECK (font_size IN ('small', 'medium', 'large', 'xlarge'))\<close> on the \<^verbatim>\<open>NOT NULL\<close>
  column \<^verbatim>\<open>prompter_settings.font_size\<close>.\<close>

definition font_size_check :: "string \<Rightarrow> bool" where
  "font_size_check f = (f \<in> set [''small'', ''medium'', ''large'', ''xlarge''])"

subsection \<open>Row-level security policies\<close>

type_synonym uuid = nat

text \<open>A row of either table: its \<^verbatim>\<open>user_id\<close> column, which is \<^verbatim>\<open>NOT NULL\<close> in \<^verbatim>\<open>songs\<close> and
  the primary key in \<^verbatim>\<open>prompter_settings\<close>, and its other columns, which no policy reads.\<close>

record 'a table_row =
  user_id :: uuid
  other_columns :: 'a

datatype table_name = Songs_table | Prompter_settings_table

text \<open>The session that runs a statement: its database role and the value of \<^verbatim>\<open>auth.uid()\<close>,
  which is \<^verbatim>\<open>NULL\<close> when nobody is signed in. Roles that bypass row-level security are not
  modelled.\<close>

datatype pg_role = anon | authenticated

record session =
  session_role :: pg_role
  auth_uid :: "uuid option"

text \<open>The expression \<^verbatim>\<open>auth.uid() = user_id\<close> of every policy; with \<^verbatim>\<open>auth.uid()\<close> \<^verbatim>\<open>NULL\<close> the
  comparison is \<^verbatim>\<open>NULL\<close>, which a policy treats as false.\<close>

definition auth_uid_is_user_id :: "session \<Rightarrow> uuid \<Rightarrow> bool" where
  "auth_uid_is_user_id s u = (auth_uid s = Some u)"

text \<open>A \<^verbatim>\<open>CREATE POLICY\<close> statement: the table, the role after \<^verbatim>\<open>TO\<close>, and the \<^verbatim>\<open>USING\<close> and
  \<^verbatim>\<open>WITH CHECK\<close> expressions that the command has.\<close>

datatype policy =
    For_select table_name pg_role "session \<Rightarrow> uuid \<Rightarrow> bool"
  | For_insert table_name pg_role "session \<Rightarrow> uuid \<Rightarrow> bool"
  | For_update table_name pg_role "session \<Rightarrow> uuid \<Rightarrow> bool" "session \<Rightarrow> uuid \<Rightarrow> bool"
  | For_delete table_name pg_role "session \<Rightarrow> uuid \<Rightarrow> bool"

text \<open>The seven policies of the migration, in its order. There is none for \<^verbatim>\<open>DELETE\<close> on
  \<^verbatim>\<open>prompter_settings\<close>.\<close>

definition policies :: "policy list" where
  "policies =
     [For_select Songs_table authenticated auth_uid_is_user_id,
      For_insert Songs_table authenticated auth_uid_is_user_id,
      For_update Songs_table authenticated auth_uid_is_user_id auth_uid_is_user_id,
      For_delete Songs_table authenticated auth_uid_is_user_id,
      For_select Prompter_settings_table authenticated auth_uid_is_user_id,
      For_insert Prompter_settings_table authenticated auth_uid_is_user_id,
      For_update Prompter_settings_table authenticated auth_uid_is_user_id auth_uid_is_user_id]"

text \<open>
  What PostgreSQL makes of the policies of a table with \<^verbatim>\<open>ENABLE ROW LEVEL SECURITY\<close>. All
  of them are permissive, so a row passes a clause when some policy for that table,
  command and role has the clause true of the row; with no such policy no row passes.
\<close>

fun select_using :: "table_name \<Rightarrow> session \<Rightarrow> uuid \<Rightarrow> policy \<Rightarrow> bool" where
  "select_using t s u (For_select t' r using) = (t' = t \<and> r = session_role s \<and> using s u)"
| "select_using t s u _ = False"

fun insert_check :: "table_name \<Rightarrow> session \<Rightarrow> uuid \<Rightarrow> policy \<Rightarrow> bool" where
  "insert_check t s u (For_insert t' r chk) = (t' = t \<and> r = session_role s \<and> chk s u)"
| "insert_check t s u _ = False"

fun update_using :: "table_name \<Rightarrow> session \<Rightarrow> uuid \<Rightarrow> policy \<Rightarrow> bool" where
  "update_using t s u (For_update t' r using chk) = (t' = t \<and> r = session_role s \<and> using s u)"
| "update_using t s u _ = False"

fun update_check :: "table_name \<Rightarrow> session \<Rightarrow> uuid \<Rightarrow> policy \<Rightarrow> bool" where
  "update_check t s u (For_update t' r using chk) = (t' = t \<and> r = session_role s \<and> chk s u)"
| "update_check t s u _ = False"

fun delete_using :: "table_name \<Rightarrow> session \<Rightarrow> uuid \<Rightarrow> policy \<Rightarrow> bool" where
  "delete_using t s u (For_delete t' r using) = (t' = t \<and> r = session_role s \<and> using s u)"
| "delete_using t s u _ = False"

text \<open>The error \<^verbatim>\<open>new row violates row-level security policy\<close>, the only one that the
  policies raise.\<close>

datatype db_error = Rls_violation

text \<open>
  \<^verbatim>\<open>SELECT\<close> and \<^verbatim>\<open>DELETE\<close> on a table, given as the list of its rows, with the \<^verbatim>\<open>WHERE\<close>
  clause as a predicate. A row that fails \<^verbatim>\<open>USING\<close> is not seen by the statement, and no
  error is reported for it. The migration declares no constraint and no trigger that a
  \<^verbatim>\<open>SELECT\<close> or a \<^verbatim>\<open>DELETE\<close> on these two tables could run into.
\<close>

definition db_select ::
  "table_name \<Rightarrow> session \<Rightarrow> ('a table_row \<Rightarrow> bool) \<Rightarrow> 'a table_row list
     \<Rightarrow> db_error + 'a table_row list" where
  "db_select t s wh tbl =
     Inr (filter (\<lambda>r. wh r \<and> list_ex (select_using t s (user_id r)) policies) tbl)"

definition db_delete ::
  "table_name \<Rightarrow> session \<Rightarrow> ('a table_row \<Rightarrow> bool) \<Rightarrow> 'a table_row list
     \<Rightarrow> db_error + 'a table_row list" where
  "db_delete t s wh tbl =
     Inr (filter (\<lambda>r. \<not> (wh r \<and> list_ex (delete_using t s (user_id r)) policies)) tbl)"

text \<open>
  \<^verbatim>\<open>INSERT\<close> and \<^verbatim>\<open>UPDATE\<close> write rows, and a row that row-level security lets through is
  still subject to the primary key, \<^verbatim>\<open>NOT NULL\<close>, \<^verbatim>\<open>CHECK\<close> and foreign key constraints of
  its table. The two definitions below are the row-level-security step of the statement
  and nothing more: the step either fails with the error above, because a row to be
  written fails \<^verbatim>\<open>WITH CHECK\<close>, or hands on the rows that the statement may write. For an
  \<^verbatim>\<open>INSERT\<close> that is the submitted row; for an \<^verbatim>\<open>UPDATE\<close> these are the rows of the table
  that match \<^verbatim>\<open>WHERE\<close> and pass \<^verbatim>\<open>USING\<close>, each with the row that is to replace it. The
  function \<open>upd\<close> gives the new row from the old one. Whether the constraints then accept
  the rows handed on is not said here.
\<close>

definition rls_insert ::
  "table_name \<Rightarrow> session \<Rightarrow> 'a table_row \<Rightarrow> db_error + 'a table_row" where
  "rls_insert t s new =
     (if list_ex (insert_check t s (user_id new)) policies then Inr new else Inl Rls_violation)"

definition rls_update ::
  "table_name \<Rightarrow> session \<Rightarrow> ('a table_row \<Rightarrow> bool) \<Rightarrow> ('a table_row \<Rightarrow> 'a table_row)
     \<Rightarrow> 'a table_row list \<Rightarrow> db_error + ('a table_row \<times> 'a table_row) list" where
  "rls_update t s wh upd tbl =
     (let targets = filter (\<lambda>r. wh r \<and> list_ex (update_using t s (user_id r)) policies) tbl
      in if list_all (\<lambda>r. list_ex (update_check t s (user_id (upd r))) policies) targets
         then Inr (map (\<lambda>r. (r, upd r)) targets)
         else Inl Rls_violation)"

text \<open>The acting identity of a session that the policies let act at all.\<close>

definition acts_as :: "session \<Rightarrow> uuid \<Rightarrow> bool" where
  "acts_as s u = (session_role s = authenticated \<and> auth_uid s = Some u)"

section \<open>Values and songs that the statements speak of\<close>

text \<open>Two adjacent double quotes somewhere in the string; a double quote at its start; a
  double quote at its end.\<close>

fun has_doubled_quote :: "string \<Rightarrow> bool" where
  "has_doubled_quote (c # d # cs) = ((c = DQ \<and> d = DQ) \<or> has_doubled_quote (d # cs))"
| "has_doubled_quote cs = False"

definition starts_with_quote :: "string \<Rightarrow> bool" where
  "starts_with_quote s = (s \<noteq> [] \<and> hd s = DQ)"

definition ends_with_quote :: "string \<Rightarrow> bool" where
  "ends_with_quote s = (s \<noteq> [] \<and> last s = DQ)"

definition quote_clean :: "string \<Rightarrow> bool" where
  "quote_clean s = (\<not> starts_with_quote s \<and> \<not> ends_with_quote s \<and> \<not> has_doubled_quote s)"

text \<open>A CR directly followed by LF somewhere in the string.\<close>

fun has_CR_LF :: "string \<Rightarrow> bool" where
  "has_CR_LF (c # d # cs) = ((c = CR \<and> d = LF) \<or> has_CR_LF (d # cs))"
| "has_CR_LF cs = False"





section \<open>Properties of the un-quoting pass\<close>

lemma length_undouble_le: "length (undouble s) \<le> length s"
  by (induction s rule: undouble.induct) auto

lemma undouble_shorter: "has_doubled_quote s \<Longrightarrow> length (undouble s) < length s"
proof (induction s rule: undouble.induct)
  case (1 c d cs)
  have "length (undouble cs) \<le> length cs" by (rule length_undouble_le)
  with 1 show ?case by auto
qed auto

lemma undouble_id: "\<not> has_doubled_quote s \<Longrightarrow> undouble s = s"
  by (induction s rule: undouble.induct) auto

lemma undouble_fix_iff: "undouble s = s \<longleftrightarrow> \<not> has_doubled_quote s"
  using undouble_shorter [of s] undouble_id [of s] by fastforce

lemma strip_quotes_id:
  "\<not> starts_with_quote s \<Longrightarrow> \<not> ends_with_quote s \<Longrightarrow> strip_quotes s = s"
  by (cases s) (auto simp: strip_quotes_def starts_with_quote_def ends_with_quote_def)

lemma strip_quotes_shorter:
  assumes "starts_with_quote s \<or> ends_with_quote s"
  shows "length (strip_quotes s) < length s"
proof (cases s)
  case Nil
  with assms show ?thesis by (simp add: starts_with_quote_def ends_with_quote_def)
next
  case (Cons c cs)
  show ?thesis
  proof (cases "c = DQ")
    case True
    with Cons show ?thesis by (auto simp: strip_quotes_def)
  next
    case False
    with Cons assms have "last s = DQ" by (simp add: starts_with_quote_def ends_with_quote_def)
    with Cons False show ?thesis by (simp add: strip_quotes_def)
  qed
qed

lemma unquote_fix_iff: "unquote s = s \<longleftrightarrow> quote_clean s"
proof
  assume unchanged: "unquote s = s"
  have "length s = length (undouble (strip_quotes s))"
    using unchanged by (simp add: unquote_def)
  also have "\<dots> \<le> length (strip_quotes s)" by (rule length_undouble_le)
  finally have "\<not> length (strip_quotes s) < length s" by simp
  then have edges: "\<not> starts_with_quote s" "\<not> ends_with_quote s"
    using strip_quotes_shorter [of s] by auto
  then have "strip_quotes s = s" by (rule strip_quotes_id)
  with unchanged have "undouble s = s" by (simp add: unquote_def)
  then have "\<not> has_doubled_quote s" by (simp add: undouble_fix_iff)
  with edges show "quote_clean s" by (simp add: quote_clean_def)
next
  assume "quote_clean s"
  then show "unquote s = s"
    by (simp add: quote_clean_def unquote_def strip_quotes_id undouble_id)
qed

text \<open>
  Claim C8, as amended. The un-quoting pass applied twice gives the same as applied once
  exactly when the result of the first application neither begins nor ends with a double
  quote and holds no two adjacent double quotes: these are the strings that the pass
  leaves unchanged.
\<close>

theorem unquote_twice_iff:
  "unquote (unquote s) = unquote s \<longleftrightarrow> quote_clean (unquote s)"
  by (rule unquote_fix_iff)

theorem unquote_twice_iff_witness:
  "unquote (unquote (DQ # ''a,b'' @ [DQ])) = unquote (DQ # ''a,b'' @ [DQ])
   \<and> quote_clean (unquote (DQ # ''a,b'' @ [DQ]))"
proof -
  have "quote_clean (unquote (DQ # ''a,b'' @ [DQ]))"
    by (simp add: unquote_def strip_quotes_def quote_clean_def starts_with_quote_def
        ends_with_quote_def)
  then show ?thesis
    using unquote_twice_iff [of "DQ # ''a,b'' @ [DQ]"] by simp
qed

text \<open>
  Claim C8, as stated, fails: on the string of four double quotes the first application
  gives one double quote and the second gives the empty string.
\<close>

theorem unquote_not_idempotent:
  "unquote (unquote [DQ, DQ, DQ, DQ]) \<noteq> unquote [DQ, DQ, DQ, DQ]"
  by (simp add: unquote_def strip_quotes_def)

section \<open>Properties of the parser\<close>

lemma no_CR_LF_tails:
  "\<not> has_CR_LF (c # t) \<Longrightarrow> \<not> has_CR_LF t" "\<not> has_CR_LF (c # t) \<Longrightarrow> \<not> has_CR_LF (tl t)"
  by (cases t; cases "tl t"; auto)+

lemma no_CR_LF_next: "\<not> has_CR_LF (CR # t) \<Longrightarrow> \<not> nextChar_is t LF"
  by (cases t) auto

lemma parse_loop_agrees:
  "\<not> has_CR_LF t \<Longrightarrow> parse_loop t result row q cur = Parse_spec_loop t result row q cur"
proof (induction t arbitrary: result row q cur rule: length_induct)
  case (1 t)
  show ?case
  proof (cases t)
    case Nil
    then show ?thesis by simp
  next
    case (Cons c rest)
    from "1.prems" Cons have r: "\<not> has_CR_LF rest" and rr: "\<not> has_CR_LF (tl rest)"
      by (auto dest: no_CR_LF_tails)
    have IH1: "parse_loop rest res rw b cv = Parse_spec_loop rest res rw b cv" for res rw b cv
      using "1.IH" r Cons by simp
    have IH2: "parse_loop (tl rest) res rw b cv = Parse_spec_loop (tl rest) res rw b cv"
      for res rw b cv
      using "1.IH" rr Cons by simp
    have "c = CR \<Longrightarrow> \<not> nextChar_is rest LF"
      using "1.prems" Cons by (auto dest: no_CR_LF_next)
    then show ?thesis
      unfolding Cons by (auto simp: IH1 IH2)
  qed
qed

text \<open>
  Claim C7. On every text without a CR directly followed by LF the parser is the scan that
  the claim describes, and the example of the claim parses to the one row \<open>a\<close>, \<open>b,c\<close>.
  But inside quotes a CR that is followed by LF is kept while the LF is skipped: the
  quoted field \<open>a CR LF b\<close> is read as \<open>a CR b\<close>, where the scan as described keeps both
  characters.
\<close>

theorem parseCSV_drops_LF_after_CR_in_quotes:
  "(\<not> has_CR_LF contents \<longrightarrow> parseCSV contents = Parse_spec contents)
   \<and> parseCSV (DQ # ''a'' @ [CR, LF] @ ''b'' @ [DQ]) = [[''a'' @ [CR] @ ''b'']]
   \<and> Parse_spec (DQ # ''a'' @ [CR, LF] @ ''b'' @ [DQ]) = [[''a'' @ [CR, LF] @ ''b'']]
   \<and> parseCSV (''a,'' @ DQ # ''b,c'' @ [DQ, LF]) = [[''a'', ''b,c'']]"
proof -
  have "\<not> has_CR_LF contents \<longrightarrow> parseCSV contents = Parse_spec contents"
    by (simp add: parseCSV_def Parse_spec_def parse_loop_agrees)
  moreover have "parseCSV (DQ # ''a'' @ [CR, LF] @ ''b'' @ [DQ]) = [[''a'' @ [CR] @ ''b'']]"
    and "Parse_spec (DQ # ''a'' @ [CR, LF] @ ''b'' @ [DQ]) = [[''a'' @ [CR, LF] @ ''b'']]"
    and "parseCSV (''a,'' @ DQ # ''b,c'' @ [DQ, LF]) = [[''a'', ''b,c'']]"
    by (simp_all add: parseCSV_def Parse_spec_def push_row_def)
  ultimately show ?thesis by blast
qed

theorem parseCSV_drops_LF_after_CR_in_quotes_witness:
  "\<not> has_CR_LF (''a,'' @ DQ # ''b,c'' @ [DQ, LF])
   \<and> Parse_spec (''a,'' @ DQ # ''b,c'' @ [DQ, LF]) = [[''a'', ''b,c'']]"
proof -
  note example = parseCSV_drops_LF_after_CR_in_quotes [of "''a,'' @ DQ # ''b,c'' @ [DQ, LF]"]
  have plain: "\<not> has_CR_LF (''a,'' @ DQ # ''b,c'' @ [DQ, LF])" by simp
  from example [THEN conjunct1] plain
  have "parseCSV (''a,'' @ DQ # ''b,c'' @ [DQ, LF]) = Parse_spec (''a,'' @ DQ # ''b,c'' @ [DQ, LF])"
    by (rule mp)
  then have "Parse_spec (''a,'' @ DQ # ''b,c'' @ [DQ, LF]) = parseCSV (''a,'' @ DQ # ''b,c'' @ [DQ, LF])"
    by (rule sym)
  also have "\<dots> = [[''a'', ''b,c'']]"
    by (rule example [THEN conjunct2, THEN conjunct2, THEN conjunct2])
  finally show ?thesis using plain by (intro conjI)
qed

section \<open>Properties of the import handler\<close>

lemma map_rows_first_failure:
  "isl (map_rows headers dataRows idx) \<Longrightarrow>
     \<exists>j<length dataRows. (\<forall>k<j. \<not> isl (map_row headers (dataRows ! k) (idx + k)))
        \<and> isl (map_row headers (dataRows ! j) (idx + j))
        \<and> map_rows headers dataRows idx = Inl (projl (map_row headers (dataRows ! j) (idx + j)))"
proof (induction dataRows arbitrary: idx)
  case Nil
  then show ?case by simp
next
  case (Cons vals rest)
  show ?case
  proof (cases "map_row headers vals idx")
    case (Inl e)
    then have "(\<forall>k<0. \<not> isl (map_row headers ((vals # rest) ! k) (idx + k)))
        \<and> isl (map_row headers ((vals # rest) ! 0) (idx + 0))
        \<and> map_rows headers (vals # rest) idx = Inl (projl (map_row headers ((vals # rest) ! 0) (idx + 0)))"
      by simp
    then show ?thesis by blast
  next
    case (Inr song)
    with Cons.prems have "isl (map_rows headers rest (Suc idx))"
      by (auto split: sum.splits)
    from Cons.IH [OF this] obtain j where j: "j < length rest"
      "\<forall>k<j. \<not> isl (map_row headers (rest ! k) (Suc idx + k))"
      "isl (map_row headers (rest ! j) (Suc idx + j))"
      "map_rows headers rest (Suc idx) = Inl (projl (map_row headers (rest ! j) (Suc idx + j)))"
      by blast
    have "\<forall>k<Suc j. \<not> isl (map_row headers ((vals # rest) ! k) (idx + k))"
    proof (intro allI impI)
      fix k assume "k < Suc j"
      then show "\<not> isl (map_row headers ((vals # rest) ! k) (idx + k))"
        using Inr j(2) by (cases k) auto
    qed
    moreover have "isl (map_row headers ((vals # rest) ! Suc j) (idx + Suc j))"
      using j(3) by simp
    moreover have "map_rows headers (vals # rest) idx
        = Inl (projl (map_row headers ((vals # rest) ! Suc j) (idx + Suc j)))"
      using Inr j(4) by simp
    moreover have "Suc j < length (vals # rest)" using j(1) by simp
    ultimately show ?thesis by blast
  qed
qed

lemma map_rows_some_failure:
  "i < length dataRows \<Longrightarrow> isl (map_row headers (dataRows ! i) (idx + i)) \<Longrightarrow>
     isl (map_rows headers dataRows idx)"
proof (induction dataRows arbitrary: idx i)
  case Nil
  then show ?case by simp
next
  case (Cons vals rest)
  show ?case
  proof (cases i)
    case 0
    with Cons.prems show ?thesis by (auto split: sum.splits)
  next
    case (Suc i')
    with Cons.prems have "isl (map_rows headers rest (Suc idx))"
      using Cons.IH [of i' "Suc idx"] by simp
    then show ?thesis by (auto split: sum.splits)
  qed
qed

lemma map_row_error_line:
  "map_row headers values rowIndex = Inl e \<Longrightarrow> error_line e = Some (rowIndex + 2)"
  by (auto simp: map_row_def Let_def split: if_splits)

lemma map_row_isl_iff:
  "isl (map_row headers values rowIndex) \<longleftrightarrow>
     (falsy (build_song headers values ''title'') \<and> falsy (build_song headers values ''mnemonic''))
     \<or> \<not> includes_category (build_song headers values ''category'')"
  by (auto simp: map_row_def Let_def)

lemma read_songs_rows:
  "2 \<le> length (parseCSV text) \<Longrightarrow> ''title'' \<in> set (header_cells (parseCSV text)) \<Longrightarrow>
   ''category'' \<in> set (header_cells (parseCSV text)) \<Longrightarrow>
   read_songs text = map_rows (header_cells (parseCSV text)) (tl (parseCSV text)) 0"
  by (simp add: read_songs_def Let_def)

lemma read_songs_format_error:
  "\<not> (2 \<le> length (parseCSV text) \<and> ''title'' \<in> set (header_cells (parseCSV text))
       \<and> ''category'' \<in> set (header_cells (parseCSV text))) \<Longrightarrow>
   isl (read_songs text)"
  by (auto simp: read_songs_def Let_def)

lemma handleFileChange_error:
  "read_songs text = Inl e \<Longrightarrow>
   handleFileChange text = \<lparr>onImport_calls = [], onClose_called = False, setError_arg = Some e\<rparr>"
  by (simp add: handleFileChange_def)





text \<open>
  Claim C6. When the parsed text has fewer than two rows, and when it has two or more but
  the lowercased and trimmed header cells lack \<open>title\<close> or \<open>category\<close>, the handler reports a
  format error, whatever the data rows are, and neither calls \<open>onImport\<close> nor closes the
  dialog.
\<close>

theorem format_errors:
  "(length (parseCSV text) < 2 \<longrightarrow>
      handleFileChange text
        = \<lparr>onImport_calls = [], onClose_called = False, setError_arg = Some TooFewRows\<rparr>)
   \<and> (2 \<le> length (parseCSV text)
        \<and> (''title'' \<notin> set (header_cells (parseCSV text))
             \<or> ''category'' \<notin> set (header_cells (parseCSV text))) \<longrightarrow>
      handleFileChange text
        = \<lparr>onImport_calls = [], onClose_called = False, setError_arg = Some MissingColumns\<rparr>)
   \<and> is_FormatError TooFewRows \<and> is_FormatError MissingColumns"
  by (simp add: handleFileChange_def read_songs_def Let_def)

lemma parse_header_only: "parseCSV ''title,category'' = [[''title'', ''category'']]"
  by (simp add: parseCSV_def push_row_def)

lemma parse_no_category:
  "parseCSV (''Title,mnemonic\<newline>A,a'') = [[''Title'', ''mnemonic''], [''A'', ''a'']]"
  by (simp add: parseCSV_def push_row_def)

lemma cells_no_category:
  "header_cells [[''Title'', ''mnemonic''], [''A'', ''a'']] = [''title'', ''mnemonic'']"
  by code_simp

theorem format_errors_witness:
  "length (parseCSV ''title,category'') < 2
   \<and> handleFileChange ''title,category''
       = \<lparr>onImport_calls = [], onClose_called = False, setError_arg = Some TooFewRows\<rparr>
   \<and> 2 \<le> length (parseCSV (''Title,mnemonic\<newline>A,a''))
   \<and> ''category'' \<notin> set (header_cells (parseCSV (''Title,mnemonic\<newline>A,a'')))
   \<and> handleFileChange (''Title,mnemonic\<newline>A,a'')
       = \<lparr>onImport_calls = [], onClose_called = False, setError_arg = Some MissingColumns\<rparr>"
  using format_errors [of "''title,category''"]
    format_errors [of "''Title,mnemonic\<newline>A,a''"]
  by (simp add: parse_header_only parse_no_category cells_no_category)

lemma column_of_snoc:
  "column_of (hs @ [h]) name = (if trim h = name then Some (length hs) else column_of hs name)"
  by (simp add: column_of_def enumerate_append_eq)

lemma build_song_snoc:
  "build_song (hs @ [h]) vs
     = set_prop (build_song hs vs) (trim h) (unquote (value_at vs (length hs)))"
  by (simp add: build_song_def enumerate_append_eq)

lemma build_song_field:
  "name \<noteq> ''__proto__'' \<Longrightarrow>
   build_song headers vs name = map_option unquote (row_field headers vs name)"
proof (induction headers rule: rev_induct)
  case Nil
  then show ?case by (simp add: build_song_def row_field_def column_of_def)
next
  case (snoc h hs)
  then show ?case
    by (auto simp: build_song_snoc column_of_snoc row_field_def set_prop_def)
qed

lemma column_of_last:
  "i < length headers \<Longrightarrow> trim (headers ! i) = name \<Longrightarrow>
   \<forall>j<length headers. i < j \<longrightarrow> trim (headers ! j) \<noteq> name \<Longrightarrow>
   column_of headers name = Some i"
proof (induction headers rule: rev_induct)
  case Nil
  then show ?case by simp
next
  case (snoc h hs)
  show ?case
  proof (cases "i = length hs")
    case True
    with snoc.prems(2) show ?thesis by (simp add: column_of_snoc)
  next
    case False
    with snoc.prems(1) have i: "i < length hs" by simp
    have "length hs < length (hs @ [h])" by simp
    with snoc.prems(3) i have "trim ((hs @ [h]) ! length hs) \<noteq> name" by blast
    then have last: "trim h \<noteq> name" by simp
    have "trim (hs ! i) = name" using snoc.prems(2) i by (simp add: nth_append)
    moreover have "\<forall>j<length hs. i < j \<longrightarrow> trim (hs ! j) \<noteq> name"
    proof (intro allI impI)
      fix j assume "j < length hs" "i < j"
      with snoc.prems(3) have "trim ((hs @ [h]) ! j) \<noteq> name" by simp
      with \<open>j < length hs\<close> show "trim (hs ! j) \<noteq> name" by (simp add: nth_append)
    qed
    ultimately have "column_of hs name = Some i" using i by (intro snoc.IH)
    with last show ?thesis by (simp add: column_of_snoc)
  qed
qed

lemma column_of_none: "name \<notin> set (map trim headers) \<Longrightarrow> column_of headers name = None"
proof (induction headers rule: rev_induct)
  case Nil
  then show ?case by (simp add: column_of_def)
next
  case (snoc h hs)
  then show ?case by (auto simp: column_of_snoc)
qed

lemma map_row_verdict:
  "isl (map_row headers vs rowIndex) \<longleftrightarrow>
     (falsy (map_option unquote (row_field headers vs ''title''))
        \<and> falsy (map_option unquote (row_field headers vs ''mnemonic'')))
     \<or> \<not> includes_category (map_option unquote (row_field headers vs ''category''))"
proof -
  have "build_song headers vs ''title'' = map_option unquote (row_field headers vs ''title'')"
    and "build_song headers vs ''mnemonic'' = map_option unquote (row_field headers vs ''mnemonic'')"
    and "build_song headers vs ''category'' = map_option unquote (row_field headers vs ''category'')"
    by (simp_all add: build_song_field)
  then show ?thesis by (simp add: map_row_isl_iff)
qed

text \<open>
  Claim C5, as amended. A data row is rejected if and only if, after the un-quoting pass,
  its title field and its mnemonic field are both empty, or its category field after that
  pass is not one of \<open>angola\<close>, \<open>saoBentoPequeno\<close>, \<open>saoBentoGrande\<close>. The field of a row
  under a name is the one at the index of the last header cell that is the name, empty
  when the row ends before it and absent, which counts as empty, when no header cell is
  the name. So a row whose title is empty and whose mnemonic is not, both after the pass,
  with such a category is accepted; and when data row \<open>k\<close> (counted from 1) is the row
  that is rejected, the error shown carries the line number \<open>k + 1\<close>.
\<close>

theorem row_validation_rule:
  fixes contents :: string and k i :: nat and headers vs :: "string list" and rowIndex :: nat
  defines "rows \<equiv> parseCSV contents" and "hs \<equiv> header_cells (parseCSV contents)"
  shows
  "(isl (map_row headers vs rowIndex) \<longleftrightarrow>
      (falsy (map_option unquote (row_field headers vs ''title''))
         \<and> falsy (map_option unquote (row_field headers vs ''mnemonic'')))
      \<or> \<not> includes_category (map_option unquote (row_field headers vs ''category'')))
   \<and> (i < length headers \<and> trim (headers ! i) = name
        \<and> (\<forall>j<length headers. i < j \<longrightarrow> trim (headers ! j) \<noteq> name) \<longrightarrow>
       row_field headers vs name = Some (if i < length vs then vs ! i else []))
   \<and> (name \<notin> set (map trim headers) \<longrightarrow> row_field headers vs name = None)
   \<and> (includes_category c \<longleftrightarrow>
        c = Some ''angola'' \<or> c = Some ''saoBentoPequeno'' \<or> c = Some ''saoBentoGrande'')
   \<and> (falsy (map_option unquote (row_field headers vs ''title''))
        \<and> \<not> falsy (map_option unquote (row_field headers vs ''mnemonic''))
        \<and> includes_category (map_option unquote (row_field headers vs ''category'')) \<longrightarrow>
       map_row headers vs rowIndex = Inr (build_song headers vs))
   \<and> (2 \<le> length rows \<and> ''title'' \<in> set hs \<and> ''category'' \<in> set hs
        \<and> 1 \<le> k \<and> k \<le> length (tl rows)
        \<and> (\<forall>j<k - 1. \<not> isl (map_row hs (tl rows ! j) j))
        \<and> isl (map_row hs (tl rows ! (k - 1)) (k - 1)) \<longrightarrow>
       (\<exists>e. setError_arg (handleFileChange contents) = Some e \<and> error_line e = Some (k + 1)
            \<and> \<not> is_FormatError e))"
proof (intro conjI impI)
  show "isl (map_row headers vs rowIndex) \<longleftrightarrow>
      (falsy (map_option unquote (row_field headers vs ''title''))
         \<and> falsy (map_option unquote (row_field headers vs ''mnemonic'')))
      \<or> \<not> includes_category (map_option unquote (row_field headers vs ''category''))"
    by (rule map_row_verdict)
  show "includes_category c \<longleftrightarrow>
        c = Some ''angola'' \<or> c = Some ''saoBentoPequeno'' \<or> c = Some ''saoBentoGrande''"
    by (cases c) (auto simp: valid_categories_def)
next
  assume "i < length headers \<and> trim (headers ! i) = name
        \<and> (\<forall>j<length headers. i < j \<longrightarrow> trim (headers ! j) \<noteq> name)"
  then have "column_of headers name = Some i" by (intro column_of_last) auto
  then show "row_field headers vs name = Some (if i < length vs then vs ! i else [])"
    by (simp add: row_field_def value_at_def)
next
  assume "name \<notin> set (map trim headers)"
  then show "row_field headers vs name = None"
    by (simp add: row_field_def column_of_none)
next
  assume "falsy (map_option unquote (row_field headers vs ''title''))
        \<and> \<not> falsy (map_option unquote (row_field headers vs ''mnemonic''))
        \<and> includes_category (map_option unquote (row_field headers vs ''category''))"
  then have "\<not> isl (map_row headers vs rowIndex)" by (simp add: map_row_verdict)
  then show "map_row headers vs rowIndex = Inr (build_song headers vs)"
    by (auto simp: map_row_def Let_def split: if_splits)
next
  assume a: "2 \<le> length rows \<and> ''title'' \<in> set hs \<and> ''category'' \<in> set hs
        \<and> 1 \<le> k \<and> k \<le> length (tl rows)
        \<and> (\<forall>j<k - 1. \<not> isl (map_row hs (tl rows ! j) j))
        \<and> isl (map_row hs (tl rows ! (k - 1)) (k - 1))"
  then have rs: "read_songs contents = map_rows hs (tl rows) 0"
    unfolding rows_def hs_def by (simp add: read_songs_rows)
  from a have "k - 1 < length (tl rows)" by auto
  with a have "isl (map_rows hs (tl rows) 0)"
    using map_rows_some_failure [of "k - 1" "tl rows" hs 0] by simp
  from map_rows_first_failure [OF this] obtain j where j: "j < length (tl rows)"
    "\<forall>i<j. \<not> isl (map_row hs (tl rows ! i) i)"
    "isl (map_row hs (tl rows ! j) j)"
    "map_rows hs (tl rows) 0 = Inl (projl (map_row hs (tl rows ! j) j))"
    by auto
  have "j = k - 1"
  proof (rule ccontr)
    assume "j \<noteq> k - 1"
    then consider "j < k - 1" | "k - 1 < j" by linarith
    then show False using a j(2,3) by cases auto
  qed
  with j(3) obtain e where e: "map_row hs (tl rows ! (k - 1)) (k - 1) = Inl e"
    by (cases "map_row hs (tl rows ! (k - 1)) (k - 1)") auto
  from e have line: "error_line e = Some (k - 1 + 2)" by (rule map_row_error_line)
  from e have "\<not> is_FormatError e" by (auto simp: map_row_def Let_def split: if_splits)
  moreover from a line have "error_line e = Some (k + 1)" by auto
  moreover have "setError_arg (handleFileChange contents) = Some e"
    using rs j(4) \<open>j = k - 1\<close> e by (simp add: handleFileChange_error)
  ultimately show "\<exists>e. setError_arg (handleFileChange contents) = Some e \<and> error_line e = Some (k + 1)
            \<and> \<not> is_FormatError e"
    by blast
qed

lemma parse_three_rows:
  "parseCSV (''title,category,mnemonic\<newline>A,angola,\<newline>,foo,m'')
     = [[''title'', ''category'', ''mnemonic''], [''A'', ''angola'', ''''], ['''', ''foo'', ''m'']]"
  by (simp add: parseCSV_def push_row_def)

lemma cells_three_columns:
  "header_cells [[''title'', ''category'', ''mnemonic''], r1, r2]
     = [''title'', ''category'', ''mnemonic'']"
  by code_simp

lemma trim_three_columns:
  "trim ''title'' = ''title''" "trim ''category'' = ''category''"
  "trim ''mnemonic'' = ''mnemonic''"
  by code_simp+

theorem row_validation_rule_witness:
  "row_field [''title'', ''category'', ''mnemonic''] ['''', ''angola'', ''m''] ''mnemonic''
      = Some ''m''
   \<and> row_field [''title'', ''category'', ''mnemonic''] ['''', ''angola'', ''m''] ''lyrics'' = None
   \<and> falsy (map_option unquote
        (row_field [''title'', ''category'', ''mnemonic''] ['''', ''angola'', ''m''] ''title''))
   \<and> \<not> falsy (map_option unquote
        (row_field [''title'', ''category'', ''mnemonic''] ['''', ''angola'', ''m''] ''mnemonic''))
   \<and> \<not> isl (map_row [''title'', ''category'', ''mnemonic''] ['''', ''angola'', ''m''] 0)
   \<and> (\<exists>e. setError_arg (handleFileChange
               (''title,category,mnemonic\<newline>A,angola,\<newline>,foo,m'')) = Some e
          \<and> error_line e = Some 3)"
proof -
  let ?hs = "[''title'', ''category'', ''mnemonic'']"
  let ?vs = "['''', ''angola'', ''m'']"
  let ?file = "''title,category,mnemonic\<newline>A,angola,\<newline>,foo,m''"
  have col: "(2::nat) < length ?hs \<and> trim (?hs ! 2) = ''mnemonic''
      \<and> (\<forall>j<length ?hs. 2 < j \<longrightarrow> trim (?hs ! j) \<noteq> ''mnemonic'')"
    by (simp add: trim_three_columns)
  have none: "''lyrics'' \<notin> set (map trim ?hs)" by (simp add: trim_three_columns)
  from row_validation_rule [of ?hs ?vs 0 2 "''mnemonic''"] col
  have m: "row_field ?hs ?vs ''mnemonic'' = Some ''m''" by simp
  from row_validation_rule [of ?hs ?vs 0 0 "''lyrics''"] none
  have l: "row_field ?hs ?vs ''lyrics'' = None" by simp
  have t: "falsy (map_option unquote (row_field ?hs ?vs ''title''))" by code_simp
  have m': "\<not> falsy (map_option unquote (row_field ?hs ?vs ''mnemonic''))" by code_simp
  have c: "includes_category (map_option unquote (row_field ?hs ?vs ''category''))" by code_simp
  have r1: "\<not> isl (map_row ?hs [''A'', ''angola'', ''''] 0)" by code_simp
  have r2: "isl (map_row ?hs ['''', ''foo'', ''m''] 1)" by code_simp
  have accepted: "\<not> isl (map_row ?hs ?vs 0)"
    using row_validation_rule [of ?hs ?vs 0] t m' c by simp
  have "\<exists>e. setError_arg (handleFileChange ?file) = Some e \<and> error_line e = Some 3"
    using row_validation_rule [of ?hs "[]" 0 0 "[]" None ?file 2] r1 r2
    by (auto simp: parse_three_rows cells_three_columns)
  with m l t m' accepted show ?thesis by simp
qed

text \<open>
  Claim C5, as stated, fails on the fields that the parser gives. A row whose title field
  is one double quote, written \<open>""""\<close> in the file, has a title that is not empty and a
  valid category, and is rejected for its title; a row whose category field is \<open>angola\<close>
  between double quotes, which is none of the three values, is accepted.
\<close>

theorem verdict_not_on_parsed_fields:
  "parseCSV (''title,category\<newline>'' @ [DQ, DQ, DQ, DQ] @ '',angola'')
      = [[''title'', ''category''], [[DQ], ''angola'']]
   \<and> \<not> Row_invalid_spec [''title'', ''category''] [[DQ], ''angola'']
   \<and> setError_arg (handleFileChange (''title,category\<newline>'' @ [DQ, DQ, DQ, DQ] @ '',angola''))
      = Some (MissingTitleOrMnemonic 2)
   \<and> Row_invalid_spec [''title'', ''category''] [''Volta'', DQ # ''angola'' @ [DQ]]
   \<and> \<not> isl (map_row [''title'', ''category''] [''Volta'', DQ # ''angola'' @ [DQ]] 0)"
proof -
  have "parseCSV (''title,category\<newline>'' @ [DQ, DQ, DQ, DQ] @ '',angola'')
      = [[''title'', ''category''], [[DQ], ''angola'']]"
    by (simp add: parseCSV_def push_row_def)
  moreover have "\<not> Row_invalid_spec [''title'', ''category''] [[DQ], ''angola'']"
    by code_simp
  moreover have "setError_arg
        (handleFileChange (''title,category\<newline>'' @ [DQ, DQ, DQ, DQ] @ '',angola''))
      = Some (MissingTitleOrMnemonic 2)"
    by code_simp
  moreover have "Row_invalid_spec [''title'', ''category''] [''Volta'', DQ # ''angola'' @ [DQ]]"
    by code_simp
  moreover have "\<not> isl (map_row [''title'', ''category''] [''Volta'', DQ # ''angola'' @ [DQ]] 0)"
    by code_simp
  ultimately show ?thesis by (intro conjI)
qed

text \<open>
  Claim C3. If some data row of the uploaded text fails validation, \<open>onImport\<close> is not
  called at all and the dialog stays open with an error; when the header has the two
  required columns, the error is that of the first failing row, all rows before it having
  passed.
\<close>

theorem invalid_row_aborts_import:
  fixes contents :: string and i :: nat
  defines "rows \<equiv> parseCSV contents" and "hs \<equiv> header_cells (parseCSV contents)"
  assumes "i < length (tl rows)" and "isl (map_row hs (tl rows ! i) i)"
  shows "onImport_calls (handleFileChange contents) = []
     \<and> \<not> onClose_called (handleFileChange contents)
     \<and> (\<exists>e. setError_arg (handleFileChange contents) = Some e)
     \<and> (''title'' \<in> set hs \<and> ''category'' \<in> set hs \<longrightarrow>
         (\<exists>j\<le>i. (\<forall>k<j. \<not> isl (map_row hs (tl rows ! k) k))
            \<and> isl (map_row hs (tl rows ! j) j)
            \<and> setError_arg (handleFileChange contents) = Some (projl (map_row hs (tl rows ! j) j))))"
proof -
  from assms(3) have len: "2 \<le> length rows" by simp
  have fails: "isl (map_rows hs (tl rows) 0)"
    using map_rows_some_failure [of i "tl rows" hs 0] assms(3,4) by simp
  have "isl (read_songs contents)"
  proof (cases "''title'' \<in> set hs \<and> ''category'' \<in> set hs")
    case True
    with len fails show ?thesis unfolding rows_def hs_def by (simp add: read_songs_rows)
  next
    case False
    then show ?thesis unfolding hs_def by (simp add: read_songs_format_error)
  qed
  then obtain e where e: "read_songs contents = Inl e" by (cases "read_songs contents") auto
  then have eff: "handleFileChange contents
      = \<lparr>onImport_calls = [], onClose_called = False, setError_arg = Some e\<rparr>"
    by (rule handleFileChange_error)
  have "\<exists>j\<le>i. (\<forall>k<j. \<not> isl (map_row hs (tl rows ! k) k))
            \<and> isl (map_row hs (tl rows ! j) j)
            \<and> setError_arg (handleFileChange contents) = Some (projl (map_row hs (tl rows ! j) j))"
    if ok: "''title'' \<in> set hs \<and> ''category'' \<in> set hs"
  proof -
    from map_rows_first_failure [OF fails] obtain j where j: "j < length (tl rows)"
      "\<forall>k<j. \<not> isl (map_row hs (tl rows ! k) k)"
      "isl (map_row hs (tl rows ! j) j)"
      "map_rows hs (tl rows) 0 = Inl (projl (map_row hs (tl rows ! j) j))"
      by auto
    have "j \<le> i" using j(2) assms(4) by (meson not_le)
    moreover have "read_songs contents = map_rows hs (tl rows) 0"
      using len ok unfolding rows_def hs_def by (simp add: read_songs_rows)
    then have "setError_arg (handleFileChange contents) = Some (projl (map_row hs (tl rows ! j) j))"
      using j(4) by (simp add: handleFileChange_error)
    ultimately show ?thesis using j(2,3) by blast
  qed
  with eff show ?thesis by simp
qed

lemma parse_two_songs:
  "parseCSV (''Title,Category\<newline>Volta,angola\<newline>Sim,samba\<newline>,angola'')
     = [[''Title'', ''Category''], [''Volta'', ''angola''], [''Sim'', ''samba''], ['''', ''angola'']]"
  by (simp add: parseCSV_def push_row_def)

lemma cells_two_columns:
  "header_cells [[''Title'', ''Category''], r1, r2, r3] = [''title'', ''category'']"
  by code_simp

theorem invalid_row_aborts_import_witness:
  "onImport_calls (handleFileChange
      (''Title,Category\<newline>Volta,angola\<newline>Sim,samba\<newline>,angola'')) = []
   \<and> setError_arg (handleFileChange
      (''Title,Category\<newline>Volta,angola\<newline>Sim,samba\<newline>,angola''))
       = Some (InvalidCategory 3 (Some ''samba''))"
proof -
  let ?hs = "[''title'', ''category'']"
  let ?file = "''Title,Category\<newline>Volta,angola\<newline>Sim,samba\<newline>,angola''"
  have r0: "\<not> isl (map_row ?hs [''Volta'', ''angola''] 0)" by code_simp
  have "build_song ?hs [''Sim'', ''samba''] ''title'' = Some ''Sim''"
    and "build_song ?hs [''Sim'', ''samba''] ''category'' = Some ''samba''"
    by code_simp+
  then have r1: "map_row ?hs [''Sim'', ''samba''] 1 = Inl (InvalidCategory 3 (Some ''samba''))"
    by (simp add: map_row_def valid_categories_def)
  have r2: "isl (map_row ?hs ['''', ''angola''] 2)" by code_simp
  have i: "2 < length (tl (parseCSV ?file))"
    by (simp add: parse_two_songs)
  have bad: "isl (map_row (header_cells (parseCSV ?file)) (tl (parseCSV ?file) ! 2) 2)"
    using r2 by (simp add: parse_two_songs cells_two_columns)
  from invalid_row_aborts_import [OF i bad]
  have calls: "onImport_calls (handleFileChange ?file) = []"
    and first: "\<exists>j\<le>2. (\<forall>k<j. \<not> isl (map_row ?hs (tl (parseCSV ?file) ! k) k))
            \<and> isl (map_row ?hs (tl (parseCSV ?file) ! j) j)
            \<and> setError_arg (handleFileChange ?file)
                = Some (projl (map_row ?hs (tl (parseCSV ?file) ! j) j))"
    by (simp_all add: cells_two_columns parse_two_songs)
  from first obtain j where j: "j \<le> 2"
    "\<forall>k<j. \<not> isl (map_row ?hs (tl (parseCSV ?file) ! k) k)"
    "isl (map_row ?hs (tl (parseCSV ?file) ! j) j)"
    "setError_arg (handleFileChange ?file) = Some (projl (map_row ?hs (tl (parseCSV ?file) ! j) j))"
    by blast
  have "j = 1"
  proof -
    from j(1) consider "j = 0" | "j = 1" | "j = 2" by linarith
    then show ?thesis
    proof cases
      case 1
      with j(3) r0 show ?thesis by (simp add: parse_two_songs)
    next
      case 2
      then show ?thesis .
    next
      case 3
      with j(2) have "\<not> isl (map_row ?hs (tl (parseCSV ?file) ! 1) 1)" by simp
      with r1 show ?thesis by (simp add: parse_two_songs)
    qed
  qed
  with j(4) r1 have "setError_arg (handleFileChange ?file) = Some (InvalidCategory 3 (Some ''samba''))"
    by (simp add: parse_two_songs)
  with calls show ?thesis by simp
qed

section \<open>Properties of the export\<close>

lemma join_cons: "join sep (x # xs) = x @ concat (map (\<lambda>y. sep @ y) xs)"
  by (induction xs arbitrary: x) auto

lemma export_header_literal: "export_header = ''title,category,mnemonic,lyrics,mediaLink''"
  by (simp add: export_header_def)

lemma export_row_flat:
  "export_row s =
     DQ # escape_quotes (title s) @ [DQ, COMMA] @ category s
       @ [COMMA, DQ] @ escape_quotes (or_empty (mnemonic s))
       @ [DQ, COMMA, DQ] @ escape_quotes (or_empty (lyrics s))
       @ [DQ, COMMA, DQ] @ escape_quotes (or_empty (mediaLink s)) @ [DQ]"
  by (simp add: export_row_def quoted_def)

lemma escape_quotes_concat:
  "escape_quotes v = concat (map (\<lambda>c. if c = DQ then [DQ, DQ] else [c]) v)"
  by (induction v) auto

text \<open>
  Claim C4, as amended. The export of any list of songs is the literal header
  \<open>title,category,mnemonic,lyrics,mediaLink\<close> followed, for each song in order, by a line
  feed and one row in that column order, in which the title, the mnemonic, the lyrics and
  the media link are each wrapped in double quotes with every interior double quote
  doubled, an absent optional field being written as an empty quoted string, and in which
  the category is written as it is, without quotes; the export of no songs is the header
  alone.
\<close>

theorem handleExport_format:
  "handleExport [] = ''title,category,mnemonic,lyrics,mediaLink''
   \<and> handleExport songs =
       ''title,category,mnemonic,lyrics,mediaLink''
         @ concat (map (\<lambda>s. LF # DQ # escape_quotes (title s) @ [DQ, COMMA] @ category s
             @ [COMMA, DQ] @ escape_quotes (or_empty (mnemonic s))
             @ [DQ, COMMA, DQ] @ escape_quotes (or_empty (lyrics s))
             @ [DQ, COMMA, DQ] @ escape_quotes (or_empty (mediaLink s)) @ [DQ]) songs)
   \<and> escape_quotes v = concat (map (\<lambda>c. if c = DQ then [DQ, DQ] else [c]) v)
   \<and> or_empty None = []"
proof -
  have "handleExport songs = export_header @ concat (map (\<lambda>s. LF # export_row s) songs)"
    by (simp add: handleExport_def join_cons comp_def)
  then show ?thesis
    by (simp add: export_header_literal export_row_flat escape_quotes_concat handleExport_def)
qed

text \<open>
  Claim C4, as stated, fails: the category is not wrapped in double quotes, so the export
  of one song differs from the text in which every field value is quoted.
\<close>

theorem handleExport_category_unquoted:
  "handleExport [\<lparr>title = ''Volta'', category = ''angola'', mnemonic = None, lyrics = None,
       mediaLink = None\<rparr>]
     \<noteq> Serialize_spec [\<lparr>title = ''Volta'', category = ''angola'', mnemonic = None,
         lyrics = None, mediaLink = None\<rparr>]"
  by (simp add: handleExport_def Serialize_spec_def export_header_def export_row_def
      Serialize_spec_row_def quoted_def)

section \<open>Export followed by import\<close>




























section \<open>Properties of the storage schema\<close>

text \<open>
  Claim C9. The categories that the import validation accepts are exactly those that the
  check constraint on \<open>songs.category\<close> accepts, the three values \<open>angola\<close>,
  \<open>saoBentoPequeno\<close> and \<open>saoBentoGrande\<close>; and the check constraint on \<open>font_size\<close>
  accepts exactly the four values \<open>small\<close>, \<open>medium\<close>, \<open>large\<close> and \<open>xlarge\<close>.
\<close>

theorem category_enumerations_agree:
  "(includes_category (Some c) \<longleftrightarrow> songs_category_check c)
   \<and> {c. songs_category_check c} = {''angola'', ''saoBentoPequeno'', ''saoBentoGrande''}
   \<and> card {c. songs_category_check c} = 3
   \<and> {f. font_size_check f} = {''small'', ''medium'', ''large'', ''xlarge''}
   \<and> card {f. font_size_check f} = 4"
proof -
  have c: "{c. songs_category_check c} = {''angola'', ''saoBentoPequeno'', ''saoBentoGrande''}"
    by (auto simp: songs_category_check_def)
  have f: "{f. font_size_check f} = {''small'', ''medium'', ''large'', ''xlarge''}"
    by (auto simp: font_size_check_def)
  have "includes_category (Some c) \<longleftrightarrow> songs_category_check c"
    by (simp add: songs_category_check_def valid_categories_def)
  moreover have "card {c. songs_category_check c} = 3" unfolding c by simp
  moreover have "card {f. font_size_check f} = 4" unfolding f by simp
  ultimately show ?thesis using c f by simp
qed

lemma select_using_policies:
  "list_ex (select_using t s u) policies = acts_as s u"
  by (cases t) (auto simp: policies_def acts_as_def auth_uid_is_user_id_def)

lemma insert_check_policies:
  "list_ex (insert_check t s u) policies = acts_as s u"
  by (cases t) (auto simp: policies_def acts_as_def auth_uid_is_user_id_def)

lemma update_using_policies:
  "list_ex (update_using t s u) policies = acts_as s u"
  by (cases t) (auto simp: policies_def acts_as_def auth_uid_is_user_id_def)

lemma update_check_policies:
  "list_ex (update_check t s u) policies = acts_as s u"
  by (cases t) (auto simp: policies_def acts_as_def auth_uid_is_user_id_def)

lemma delete_using_policies:
  "list_ex (delete_using t s u) policies = (t = Songs_table \<and> acts_as s u)"
  by (cases t) (auto simp: policies_def acts_as_def auth_uid_is_user_id_def)

lemma db_select_eq:
  "db_select t s wh tbl = Inr (filter (\<lambda>r. wh r \<and> acts_as s (user_id r)) tbl)"
  by (simp add: db_select_def select_using_policies)

lemma db_delete_eq:
  "db_delete t s wh tbl
     = Inr (filter (\<lambda>r. \<not> (wh r \<and> t = Songs_table \<and> acts_as s (user_id r))) tbl)"
  by (simp add: db_delete_def delete_using_policies)

lemma rls_insert_eq:
  "rls_insert t s new = (if acts_as s (user_id new) then Inr new else Inl Rls_violation)"
  by (simp add: rls_insert_def insert_check_policies)

lemma rls_update_eq:
  "rls_update t s wh upd tbl
     = (if list_all (\<lambda>r. acts_as s (user_id (upd r)))
             (filter (\<lambda>r. wh r \<and> acts_as s (user_id r)) tbl)
        then Inr (map (\<lambda>r. (r, upd r)) (filter (\<lambda>r. wh r \<and> acts_as s (user_id r)) tbl))
        else Inl Rls_violation)"
  by (simp add: rls_update_def update_using_policies update_check_policies)

text \<open>
  Claim C2, as amended. Under the policies, in a session of the \<open>authenticated\<close> role whose
  identity is \<open>auth.uid()\<close>, and on either table: a select returns, without error, exactly
  the rows asked for whose owner is the acting identity; a delete on \<open>songs\<close> removes
  exactly those rows, and a delete on \<open>prompter_settings\<close> removes nothing; row-level
  security rejects an insert, with its error, exactly when the owner of the submitted row
  is not the acting identity; an update aims at exactly the rows asked for whose owner is
  the acting identity, and row-level security rejects it exactly when one of the rows it
  would write in their place has another owner. So a row of another owner is never
  returned, aimed at by an update or removed, and a select, update or delete that aims at
  it reports no error. A session of another role, or with no identity, acts as nobody.
\<close>

theorem row_level_security_effects:
  "db_select t s wh tbl = Inr (filter (\<lambda>r. wh r \<and> acts_as s (user_id r)) tbl)
   \<and> db_delete Songs_table s wh tbl
       = Inr (filter (\<lambda>r. \<not> (wh r \<and> acts_as s (user_id r))) tbl)
   \<and> db_delete Prompter_settings_table s wh tbl = Inr tbl
   \<and> (isl (rls_insert t s new) \<longleftrightarrow> \<not> acts_as s (user_id new))
   \<and> (isl (rls_update t s wh upd tbl) \<longleftrightarrow>
        (\<exists>r\<in>set tbl. wh r \<and> acts_as s (user_id r) \<and> \<not> acts_as s (user_id (upd r))))
   \<and> (\<forall>ws. rls_update t s wh upd tbl = Inr ws \<longrightarrow>
        map fst ws = filter (\<lambda>r. wh r \<and> acts_as s (user_id r)) tbl)
   \<and> (x \<in> set tbl \<and> \<not> acts_as s (user_id x) \<longrightarrow>
         x \<notin> set (projr (db_select t s wh tbl))
       \<and> x \<in> set (projr (db_delete t s wh tbl))
       \<and> (\<forall>ws. rls_update t s wh upd tbl = Inr ws \<longrightarrow> x \<notin> fst ` set ws))"
proof (intro conjI impI allI)
  show "db_select t s wh tbl = Inr (filter (\<lambda>r. wh r \<and> acts_as s (user_id r)) tbl)"
    by (rule db_select_eq)
  show "db_delete Songs_table s wh tbl
       = Inr (filter (\<lambda>r. \<not> (wh r \<and> acts_as s (user_id r))) tbl)"
    by (simp add: db_delete_eq)
  show "db_delete Prompter_settings_table s wh tbl = Inr tbl"
    by (simp add: db_delete_eq)
  show "isl (rls_insert t s new) \<longleftrightarrow> \<not> acts_as s (user_id new)"
    by (simp add: rls_insert_eq)
  show "isl (rls_update t s wh upd tbl) \<longleftrightarrow>
        (\<exists>r\<in>set tbl. wh r \<and> acts_as s (user_id r) \<and> \<not> acts_as s (user_id (upd r)))"
    by (auto simp: rls_update_eq list_all_iff)
next
  fix ws
  assume "rls_update t s wh upd tbl = Inr ws"
  then have "ws = map (\<lambda>r. (r, upd r)) (filter (\<lambda>r. wh r \<and> acts_as s (user_id r)) tbl)"
    by (simp add: rls_update_eq split: if_splits)
  then show "map fst ws = filter (\<lambda>r. wh r \<and> acts_as s (user_id r)) tbl"
    by (simp add: comp_def)
next
  assume "x \<in> set tbl \<and> \<not> acts_as s (user_id x)"
  then show "x \<notin> set (projr (db_select t s wh tbl))"
    by (simp add: db_select_eq)
next
  assume "x \<in> set tbl \<and> \<not> acts_as s (user_id x)"
  then show "x \<in> set (projr (db_delete t s wh tbl))"
    by (simp add: db_delete_eq)
next
  fix ws
  assume x: "x \<in> set tbl \<and> \<not> acts_as s (user_id x)"
    and "rls_update t s wh upd tbl = Inr ws"
  then have "ws = map (\<lambda>r. (r, upd r)) (filter (\<lambda>r. wh r \<and> acts_as s (user_id r)) tbl)"
    by (simp add: rls_update_eq split: if_splits)
  then have "fst ` set ws = {r \<in> set tbl. wh r \<and> acts_as s (user_id r)}"
    by (simp add: image_image)
  with x show "x \<notin> fst ` set ws" by simp
qed

theorem row_level_security_effects_witness:
  "\<lparr>user_id = 2, other_columns = ''Volta''\<rparr>
      \<in> set [\<lparr>user_id = 1, other_columns = ''Sim''\<rparr>, \<lparr>user_id = 2, other_columns = ''Volta''\<rparr>]
   \<and> \<not> acts_as \<lparr>session_role = authenticated, auth_uid = Some 1\<rparr>
         (user_id \<lparr>user_id = 2, other_columns = ''Volta''\<rparr>)
   \<and> \<lparr>user_id = 2, other_columns = ''Volta''\<rparr>
      \<notin> set (projr (db_select Songs_table \<lparr>session_role = authenticated, auth_uid = Some 1\<rparr>
           ((=) \<lparr>user_id = 2, other_columns = ''Volta''\<rparr>)
           [\<lparr>user_id = 1, other_columns = ''Sim''\<rparr>, \<lparr>user_id = 2, other_columns = ''Volta''\<rparr>]))
   \<and> \<lparr>user_id = 2, other_columns = ''Volta''\<rparr>
      \<in> set (projr (db_delete Songs_table \<lparr>session_role = authenticated, auth_uid = Some 1\<rparr>
           ((=) \<lparr>user_id = 2, other_columns = ''Volta''\<rparr>)
           [\<lparr>user_id = 1, other_columns = ''Sim''\<rparr>, \<lparr>user_id = 2, other_columns = ''Volta''\<rparr>]))
   \<and> rls_update Songs_table \<lparr>session_role = authenticated, auth_uid = Some 1\<rparr>
        ((=) \<lparr>user_id = 2, other_columns = ''Volta''\<rparr>) id
        [\<lparr>user_id = 1, other_columns = ''Sim''\<rparr>, \<lparr>user_id = 2, other_columns = ''Volta''\<rparr>]
       = Inr []
   \<and> isl (rls_insert Songs_table \<lparr>session_role = authenticated, auth_uid = Some 1\<rparr>
        \<lparr>user_id = 2, other_columns = ''Volta''\<rparr>)"
proof -
  let ?x = "\<lparr>user_id = 2, other_columns = ''Volta''\<rparr>"
  let ?tbl = "[\<lparr>user_id = 1, other_columns = ''Sim''\<rparr>, ?x]"
  let ?s = "\<lparr>session_role = authenticated, auth_uid = Some 1\<rparr>"
  note inst = row_level_security_effects [of Songs_table ?s "(=) ?x" ?tbl ?x id ?x]
  have mem: "?x \<in> set ?tbl" by simp
  have other: "\<not> acts_as ?s (user_id ?x)" by (simp add: acts_as_def)
  have upd: "rls_update Songs_table ?s ((=) ?x) id ?tbl = Inr []"
    by (simp add: rls_update_def policies_def auth_uid_is_user_id_def)
  from inst other have ins: "isl (rls_insert Songs_table ?s ?x)" by blast
  from inst mem other have "?x \<notin> set (projr (db_select Songs_table ?s ((=) ?x) ?tbl))"
    and "?x \<in> set (projr (db_delete Songs_table ?s ((=) ?x) ?tbl))"
    by blast+
  with mem other upd ins show ?thesis by (intro conjI)
qed

text \<open>
  Claim C2, as stated, fails: a select, an update and a delete by identity 1 that aim at
  the one row of \<open>songs\<close>, owned by identity 2, are not denied: the select returns no
  rows, the update passes row-level security with no row to write, and the delete leaves
  the table as it was.
\<close>

theorem foreign_row_filtered_not_denied:
  "db_select Songs_table \<lparr>session_role = authenticated, auth_uid = Some 1\<rparr>
       ((=) \<lparr>user_id = 2, other_columns = ''Volta''\<rparr>)
       [\<lparr>user_id = 2, other_columns = ''Volta''\<rparr>] = Inr []
   \<and> rls_update Songs_table \<lparr>session_role = authenticated, auth_uid = Some 1\<rparr>
       ((=) \<lparr>user_id = 2, other_columns = ''Volta''\<rparr>) (other_columns_update (append ''Nova ''))
       [\<lparr>user_id = 2, other_columns = ''Volta''\<rparr>]
       = Inr []
   \<and> db_delete Songs_table \<lparr>session_role = authenticated, auth_uid = Some 1\<rparr>
       ((=) \<lparr>user_id = 2, other_columns = ''Volta''\<rparr>)
       [\<lparr>user_id = 2, other_columns = ''Volta''\<rparr>]
       = Inr [\<lparr>user_id = 2, other_columns = ''Volta''\<rparr>]"
  by (simp add: db_select_def rls_update_def db_delete_def policies_def auth_uid_is_user_id_def)

end
